theory Spec2Isabelle
  imports Complex_Main
begin

section \<open>Errors and array helpers\<close>

text \<open>
  The module \<^verbatim>\<open>features/zps.py\<close> works on numpy arrays of float64 and complex128 values.
  Array entries are represented by \<^typ>\<open>real\<close> and \<^typ>\<open>complex\<close> numbers: rounding is
  not represented, and where numpy would produce \<^verbatim>\<open>nan\<close> or \<^verbatim>\<open>inf\<close> this is said at the
  definition concerned. Every exception the code can raise is a value \<open>Inl e\<close> of the result.
\<close>

datatype error = ValueError | AssertionError | IndexError | LinAlgError

definition ebind :: "error + 'a \<Rightarrow> ('a \<Rightarrow> error + 'b) \<Rightarrow> error + 'b" where
  "ebind r f = (case r of Inl e \<Rightarrow> Inl e | Inr x \<Rightarrow> f x)"

text \<open>
  numpy broadcasting of two one-dimensional arrays: equal lengths, or one of the two has
  length one and is repeated; anything else raises \<^verbatim>\<open>ValueError\<close>.
\<close>

definition broadcast_len :: "nat \<Rightarrow> nat \<Rightarrow> error + nat" where
  "broadcast_len a b =
     (if a = b then Inr a else if a = 1 then Inr b else if b = 1 then Inr a
      else Inl ValueError)"

definition bget :: "'a list \<Rightarrow> nat \<Rightarrow> 'a" where
  "bget xs i = (if length xs = 1 then xs ! 0 else xs ! i)"

definition broadcast2 :: "('a \<Rightarrow> 'b \<Rightarrow> 'c) \<Rightarrow> 'a list \<Rightarrow> 'b list \<Rightarrow> error + 'c list" where
  "broadcast2 f xs ys =
     (case broadcast_len (length xs) (length ys) of
        Inl e \<Rightarrow> Inl e
      | Inr k \<Rightarrow> Inr (map (\<lambda>i. f (bget xs i) (bget ys i)) [0..<k]))"

text \<open>\<^verbatim>\<open>N.max()\<close>: the maximum of an array, \<^verbatim>\<open>ValueError\<close> on an empty one.\<close>

fun amax :: "int list \<Rightarrow> error + int" where
  "amax [] = Inl ValueError"
| "amax (x # xs) = Inr (fold max xs x)"

text \<open>
  \<^verbatim>\<open>np.array(l)\<close> on a list of rows: the rows must have one common length (a ragged
  list raises \<^verbatim>\<open>ValueError\<close>).
\<close>

definition np_array :: "'a list list \<Rightarrow> error + 'a list list" where
  "np_array l = (if list_all (\<lambda>r. length r = length (hd l)) l then Inr l else Inl ValueError)"

section \<open>Coefficient generator\<close>

subsection \<open>Classical Zernike polynomials\<close>

text \<open>
  \<^verbatim>\<open>zp_norm(n, m)\<close>: \<open>sqrt (n + 1)\<close> where \<open>m = 0\<close> and \<open>sqrt (2 n + 2)\<close> elsewhere. The
  boolean mask \<^verbatim>\<open>m == 0\<close> indexes arrays of length \<^verbatim>\<open>len(n)\<close>, which raises
  \<^verbatim>\<open>IndexError\<close> when the two lengths differ.
\<close>

definition zp_norm :: "int list \<Rightarrow> int list \<Rightarrow> error + real list" where
  "zp_norm n m =
     (if length m \<noteq> length n then Inl IndexError
      else Inr (map2 (\<lambda>en em. if em = 0 then sqrt (of_int (en + 1))
                                else sqrt (of_int (2 * en + 2))) n m))"

text \<open>
  \<^verbatim>\<open>scipy.special.binom\<close> at integer arguments \<open>a \<ge> 0\<close>, the only ones
  \<^verbatim>\<open>zp_get_coeffs\<close> passes: the binomial coefficient, and \<open>0\<close> when \<open>b\<close> is negative or
  exceeds \<open>a\<close>.
\<close>

definition binom :: "int \<Rightarrow> int \<Rightarrow> real" where
  "binom a b = (if 0 \<le> b \<and> b \<le> a then real (nat a choose nat b) else 0)"

text \<open>
  One row of the coefficient matrix (the body of the loop of \<^verbatim>\<open>zp_get_coeffs\<close>):
  \<open>n_max - n\<close> zeros, then one entry for every \<open>i\<close> in \<open>0..n\<close> with \<open>k = i // 2\<close>.
  Here \<open>m\<close> is already the absolute value.
\<close>

definition zp_row :: "int \<Rightarrow> int \<Rightarrow> int \<Rightarrow> real list" where
  "zp_row n_max n m =
     (let num = (n - m) div 2 in
      replicate (nat (n_max - n)) 0 @
      map (\<lambda>i. let k = i div 2 in
                 if i mod 2 = 0
                 then (- 1) ^ nat k * binom (n - k) k * binom (n - 2 * k) (num - k)
                 else 0) [0..n])"

definition scale_rows :: "real list list \<Rightarrow> real list \<Rightarrow> real list list" where
  "scale_rows c v = map2 (\<lambda>row f. map (\<lambda>x. x * f) row) c v"

definition zp_get_coeffs :: "int list \<Rightarrow> int list \<Rightarrow> bool \<Rightarrow> error + real list list" where
  "zp_get_coeffs N M normalize_flag =
     ebind (amax N) (\<lambda>n_max.
     let M_abs = map abs M in
     ebind (broadcast2 (\<lambda>n m. (n - m) mod 2 = 0) N M_abs) (\<lambda>even_flags.
     if \<not> list_all id even_flags then Inl AssertionError
     else
       ebind (np_array (map (\<lambda>(n, m). zp_row n_max n m) (zip N M_abs))) (\<lambda>c_matrix.
       if normalize_flag
       then ebind (zp_norm N M) (\<lambda>nrm. Inr (scale_rows c_matrix nrm))
       else Inr c_matrix)))"

subsection \<open>Generalized pseudo-Zernike polynomials\<close>

text \<open>
  \<^verbatim>\<open>scipy.special.poch(x, k)\<close> at an integer \<open>k \<ge> 0\<close> is the rising factorial
  \<open>x (x + 1) \<dots> (x + k - 1)\<close>; \<^verbatim>\<open>scipy.special.factorial\<close> is \<open>0\<close> at a negative
  argument. With a degree \<open>n \<ge> 0\<close> every second argument of \<^verbatim>\<open>poch\<close> below is positive.
  For \<open>alpha > -1\<close> no denominator vanishes; at a vanishing denominator numpy yields
  \<^verbatim>\<open>inf\<close> or \<^verbatim>\<open>nan\<close> without raising, which the real numbers here do not show.
\<close>

primrec poch :: "real \<Rightarrow> nat \<Rightarrow> real" where
  "poch x 0 = 1"
| "poch x (Suc k) = poch x k * (x + real k)"

definition factorial :: "int \<Rightarrow> real" where
  "factorial k = (if k < 0 then 0 else real (fact (nat k)))"

definition gpzp_norm :: "int list \<Rightarrow> int list \<Rightarrow> real \<Rightarrow> error + real list" where
  "gpzp_norm n m alpha =
     (let m_abs = map abs m in
      ebind (broadcast2 (\<lambda>en em. en - em) n m_abs) (\<lambda>b.
      if length m \<noteq> length n then Inl IndexError
      else Inr (map (\<lambda>i.
        let en = n ! i; em = m_abs ! i; eb = b ! i;
            q = poch (of_int eb + alpha + 1) (nat (2 * em + 1))
                / poch (of_int eb + 1) (nat (2 * em + 1))
        in if m ! i = 0 then sqrt ((of_int en + alpha / 2 + 1) * q)
           else sqrt ((2 * of_int en + alpha + 2) * q)) [0..<length n])))"

text \<open>
  One row (the body of the loop of \<^verbatim>\<open>gpzp_get_coeffs\<close>): \<open>n_max - n\<close> zeros, one
  coefficient for every \<open>k\<close> in \<open>0..b\<close>, then \<open>n - b\<close> zeros.
\<close>

definition gpzp_row :: "real \<Rightarrow> int \<Rightarrow> int \<Rightarrow> int \<Rightarrow> int \<Rightarrow> real \<Rightarrow> real list" where
  "gpzp_row alpha n_max n a b c =
     replicate (nat (n_max - n)) 0 @
     map (\<lambda>k. c * (- 1) ^ nat k * poch (alpha + 1) (nat (2 * n + 1 - k))
               / (factorial k * factorial (a + 1 - k) * factorial (b - k))) [0..b] @
     replicate (nat (n - b)) 0"

definition gpzp_get_coeffs ::
  "int list \<Rightarrow> int list \<Rightarrow> real \<Rightarrow> bool \<Rightarrow> error + real list list" where
  "gpzp_get_coeffs N M alpha normalize_flag =
     (let M_abs = map abs M in
      ebind (amax N) (\<lambda>n_max.
      ebind (broadcast2 (\<lambda>n m. n + m) N M_abs) (\<lambda>A.
      ebind (broadcast2 (\<lambda>n m. n - m) N M_abs) (\<lambda>B.
      let C = map (\<lambda>a. factorial (a + 1) / poch (alpha + 1) (nat (a + 1))) A in
      if length A < length N then Inl IndexError
      else
        ebind (np_array (map (\<lambda>i. gpzp_row alpha n_max (N ! i) (A ! i) (B ! i) (C ! i))
                           [0..<length N])) (\<lambda>c_matrix.
        if normalize_flag
        then ebind (gpzp_norm N M alpha) (\<lambda>nrm. Inr (scale_rows c_matrix nrm))
        else Inr c_matrix)))))"

section \<open>Index utilities\<close>

text \<open>
  \<^verbatim>\<open>features/zps.py\<close> imports \<^verbatim>\<open>nm2j\<close>, \<^verbatim>\<open>j2nm\<close> and \<^verbatim>\<open>nm2j_complex\<close> from the module
  \<^verbatim>\<open>utils\<close>, whose source is not at hand. They are parameters of every definition that calls
  them, collected in one record; each is taken elementwise, with the optional \<^verbatim>\<open>alpha\<close> as
  last argument.
\<close>

record utils =
  nm2j :: "int \<Rightarrow> int \<Rightarrow> real option \<Rightarrow> int"
  nm2j_complex :: "int \<Rightarrow> int \<Rightarrow> real option \<Rightarrow> int"
  j2nm :: "int \<Rightarrow> real option \<Rightarrow> int \<times> int"

section \<open>Azimuthal-state filter\<close>

text \<open>
  The \<^verbatim>\<open>states\<close> argument of \<^verbatim>\<open>_get_m_states\<close>: \<^verbatim>\<open>None\<close>, one number, or an iterable.
\<close>

datatype states_arg = NoStates | OneState int | ManyStates "int list"

text \<open>
  \<^verbatim>\<open>_get_m_states(m, states)\<close>. \<^verbatim>\<open>np.unique\<close> is a sorted list without duplicates;
  \<^verbatim>\<open>list(set(...))\<close> is a list without duplicates in some order (only membership in the
  result is used by the callers).
\<close>

definition get_m_states :: "int list \<Rightarrow> states_arg \<Rightarrow> int list" where
  "get_m_states m states =
     (case states of
        NoStates \<Rightarrow> remdups (map abs m)
      | OneState s \<Rightarrow>
          if s < 0 then filter (\<lambda>u. u \<noteq> 0) (sort (remdups (map abs m))) else [s]
      | ManyStates ss \<Rightarrow> sort (remdups (map abs ss)))"

text \<open>
  The index selection of \<^verbatim>\<open>ZPs.__init__\<close>: all index pairs up to
  \<^verbatim>\<open>j_max = nm2j(n_max, n_max, alpha)\<close>, restricted to the columns whose \<open>|m|\<close> is in the
  resolved state list. The result is the pair \<^verbatim>\<open>(self.n, self.m)\<close>.
\<close>

definition ZPs_init_nm ::
  "utils \<Rightarrow> int \<Rightarrow> real option \<Rightarrow> states_arg \<Rightarrow> int list \<times> int list" where
  "ZPs_init_nm u n_max alpha states =
     (let j_max = nm2j u n_max n_max alpha;
          nm = map (\<lambda>j. j2nm u j alpha) [0..j_max];
          n = map fst nm;
          m = map snd nm;
          st = get_m_states m states;
          ind = filter (\<lambda>i. \<bar>m ! i\<bar> \<in> set st) [0..<length m]
      in (map (\<lambda>i. n ! i) ind, map (\<lambda>i. m ! i) ind))"

section \<open>Moment arrays\<close>

text \<open>
  A \<^verbatim>\<open>zmarray\<close> is a two-dimensional numpy array (one row per sample, one column per
  polynomial) with the attributes \<^verbatim>\<open>n\<close>, \<^verbatim>\<open>m\<close> and \<^verbatim>\<open>alpha\<close>. The buffer is a list of
  rows; \<open>zm_is_complex\<close> is the test \<^verbatim>\<open>self.dtype == complex\<close>, and the entries of a real
  array are complex numbers with imaginary part zero.
\<close>

record zmarray =
  zm_buf :: "complex list list"
  zm_is_complex :: bool
  zm_n :: "int list"
  zm_m :: "int list"
  zm_alpha :: "real option"

text \<open>
  \<^verbatim>\<open>select\<close>: the columns whose \<open>|m|\<close> is in the resolved state list. Fancy indexing
  \<^verbatim>\<open>self[:, ind]\<close> and \<^verbatim>\<open>self.n[ind]\<close> copies, and raises \<^verbatim>\<open>IndexError\<close> on an index
  beyond the axis.
\<close>

definition select :: "zmarray \<Rightarrow> states_arg \<Rightarrow> error + zmarray" where
  "select self states =
     (let st = get_m_states (zm_m self) states;
          ind = filter (\<lambda>i. \<bar>zm_m self ! i\<bar> \<in> set st) [0..<length (zm_m self)]
      in if list_ex (\<lambda>i. list_ex (\<lambda>row. length row \<le> i) (zm_buf self)) ind
            \<or> list_ex (\<lambda>i. length (zm_n self) \<le> i) ind
         then Inl IndexError
         else Inr \<lparr>zm_buf = map (\<lambda>row. map (\<lambda>i. row ! i) ind) (zm_buf self),
                   zm_is_complex = zm_is_complex self,
                   zm_n = map (\<lambda>i. zm_n self ! i) ind,
                   zm_m = map (\<lambda>i. zm_m self ! i) ind,
                   zm_alpha = zm_alpha self\<rparr>)"

subsection \<open>Transform matrices\<close>

text \<open>
  A loop whose body may raise: the first error ends it.
\<close>

fun efold :: "('a \<Rightarrow> 's \<Rightarrow> error + 's) \<Rightarrow> 'a list \<Rightarrow> 's \<Rightarrow> error + 's" where
  "efold f [] s = Inr s"
| "efold f (x # xs) s = (case f x s of Inl e \<Rightarrow> Inl e | Inr s' \<Rightarrow> efold f xs s')"

text \<open>
  An index \<open>j\<close> along an axis of length \<open>L\<close>: numpy counts a negative index from the end
  and raises \<^verbatim>\<open>IndexError\<close> outside \<open>-L \<le> j < L\<close>.
\<close>

definition py_index :: "nat \<Rightarrow> int \<Rightarrow> error + nat" where
  "py_index L j =
     (if 0 \<le> j \<and> j < int L then Inr (nat j)
      else if - int L \<le> j \<and> j < 0 then Inr (nat (int L + j))
      else Inl IndexError)"

text \<open>The assignment \<^verbatim>\<open>matrix[i, j] = v\<close> for a row \<open>i\<close> inside the matrix.\<close>

definition set_entry :: "'a list list \<Rightarrow> nat \<Rightarrow> int \<Rightarrow> 'a \<Rightarrow> error + 'a list list" where
  "set_entry M i j v =
     ebind (py_index (length (M ! i)) j) (\<lambda>k. Inr (M[i := (M ! i)[k := v]]))"

definition deg2rad :: "real \<Rightarrow> real" where
  "deg2rad x = x * pi / 180"

text \<open>
  The body of the loop of \<^verbatim>\<open>construct_rot_matrix\<close>, for the row \<open>i\<close> and its index pair
  \<open>(en, em)\<close>; \<open>theta\<close> is already in radians.
\<close>

definition rot_matrix_step ::
  "utils \<Rightarrow> real option \<Rightarrow> real \<Rightarrow> nat \<times> int \<times> int \<Rightarrow> real list list
     \<Rightarrow> error + real list list" where
  "rot_matrix_step u alpha theta = (\<lambda>(i, en, em) rot_matrix.
     if em = 0 then set_entry rot_matrix i (nm2j u en em alpha) 1
     else if em < 0 then
       (let t = theta * of_int (- em) in
        ebind (set_entry rot_matrix i (nm2j u en em alpha) (cos t)) (\<lambda>rot_matrix.
        set_entry rot_matrix i (nm2j u en (- em) alpha) (- sin t)))
     else
       (let t = theta * of_int em in
        ebind (set_entry rot_matrix i (nm2j u en em alpha) (cos t)) (\<lambda>rot_matrix.
        set_entry rot_matrix i (nm2j u en (- em) alpha) (sin t))))"

definition construct_rot_matrix ::
  "utils \<Rightarrow> int list \<Rightarrow> int list \<Rightarrow> real \<Rightarrow> real option \<Rightarrow> error + real list list" where
  "construct_rot_matrix u n m theta alpha =
     efold (rot_matrix_step u alpha (deg2rad theta))
           (zip [0..<length n] (zip n m))
           (replicate (length n) (replicate (length n) 0))"

text \<open>
  The row of \<^verbatim>\<open>matrix.dot(self.T).T\<close> for one sample \<open>v\<close>: entry \<open>r\<close> is the sum of
  \<open>matrix[r, j] * v[j]\<close>. The product raises \<^verbatim>\<open>ValueError\<close> unless the matrix has as many
  columns as the array.
\<close>

definition rdot :: "real list \<Rightarrow> complex list \<Rightarrow> complex" where
  "rdot r v = sum_list (map2 (\<lambda>a x. of_real a * x) r v)"

definition cdot :: "complex list \<Rightarrow> complex list \<Rightarrow> complex" where
  "cdot r v = sum_list (map2 (\<lambda>a x. a * x) r v)"

text \<open>
  \<^verbatim>\<open>rot(theta)\<close>. The call \<^verbatim>\<open>construct_rot_matrix(self.n, self.m, theta)\<close> leaves \<^verbatim>\<open>alpha\<close>
  at its default \<^verbatim>\<open>None\<close>.
\<close>

definition rot :: "utils \<Rightarrow> zmarray \<Rightarrow> real \<Rightarrow> error + zmarray" where
  "rot u self theta =
     ebind (construct_rot_matrix u (zm_n self) (zm_m self) theta None) (\<lambda>rot_matrix.
     if \<not> list_all (\<lambda>row. length row = length (zm_n self)) (zm_buf self)
     then Inl ValueError
     else Inr \<lparr>zm_buf = map (\<lambda>v. map (\<lambda>r. rdot r v) rot_matrix) (zm_buf self),
               zm_is_complex = zm_is_complex self,
               zm_n = zm_n self, zm_m = zm_m self, zm_alpha = zm_alpha self\<rparr>)"

text \<open>
  \<^verbatim>\<open>construct_complex_matrix\<close>. \<open>the_index xs x\<close> is the dictionary
  \<^verbatim>\<open>dict(zip(uniq_j2, range(num_rows)))\<close>: the position of \<open>x\<close> in the duplicate-free list.
\<close>

definition the_index :: "'a list \<Rightarrow> 'a \<Rightarrow> nat" where
  "the_index xs x = length (takeWhile (\<lambda>y. y \<noteq> x) xs)"

definition construct_complex_matrix ::
  "utils \<Rightarrow> int list \<Rightarrow> int list \<Rightarrow> real option \<Rightarrow> error + complex list list" where
  "construct_complex_matrix u n m alpha =
     ebind (broadcast2 (\<lambda>en em. nm2j u en em alpha) n m) (\<lambda>j1.
     ebind (broadcast2 (\<lambda>en em. nm2j_complex u en em alpha) n (map abs m)) (\<lambda>j2.
     let uniq_j2 = sort (remdups j2);
         num_rows = length uniq_j2;
         num_cols = length j1
     in if length m \<noteq> num_cols then Inl IndexError
        else
          let vals = map (\<lambda>em. if em \<ge> 0 then 1 else \<i>) m in
          Inr (fold (\<lambda>(i, ind, v) c_matrix.
                       c_matrix[the_index uniq_j2 ind := (c_matrix ! the_index uniq_j2 ind)[i := v]])
                 (zip [0..<length j2] (zip j2 vals))
                 (replicate num_rows (replicate num_cols 0)))))"

text \<open>\<^verbatim>\<open>astype(int)\<close> on a float: truncation towards zero.\<close>

definition astype_int :: "real \<Rightarrow> int" where
  "astype_int x = (if 0 \<le> x then \<lfloor>x\<rfloor> else \<lceil>x\<rceil>)"

subsection \<open>Operations that can return or write the receiver\<close>

text \<open>
  \<^verbatim>\<open>complex\<close>, \<^verbatim>\<open>rotinv\<close> and \<^verbatim>\<open>normalize\<close> may return the receiver itself, and \<^verbatim>\<open>rotinv\<close>
  assigns into the array that \<^verbatim>\<open>complex\<close> returned. They are modelled over a store of array
  objects: a reference is a position in the store, a new array is appended.
\<close>

type_synonym heap = "zmarray list"

definition alloc :: "heap \<Rightarrow> zmarray \<Rightarrow> heap \<times> nat" where
  "alloc h z = (h @ [z], length h)"

text \<open>\<^verbatim>\<open>zmarray.complex\<close>; a complex array is returned as it is (the same object).\<close>

definition complex_zm :: "utils \<Rightarrow> heap \<Rightarrow> nat \<Rightarrow> error + heap \<times> nat" where
  "complex_zm u h self_ref =
     (let self = h ! self_ref in
      if \<not> zm_is_complex self then
        ebind (construct_complex_matrix u (zm_n self) (zm_m self) (zm_alpha self)) (\<lambda>c_matrix.
        if \<not> list_all (\<lambda>row. length row = length (zm_m self)) (zm_buf self)
        then Inl ValueError
        else
          let zm_complex = map (\<lambda>v. map (\<lambda>r. cdot r v) c_matrix) (zm_buf self);
              c_matrix = map (map (\<lambda>z. if z = \<i> then 0 else z)) c_matrix;
              m = map (\<lambda>r. astype_int (Re (cdot r (map (\<lambda>x. of_int \<bar>x\<bar>) (zm_m self))))) c_matrix
          in if length (zm_n self) \<noteq> length (zm_m self) then Inl ValueError
             else
               let n = map (\<lambda>r. astype_int (Re (cdot r (map (\<lambda>x. of_int \<bar>x\<bar>) (zm_n self)))))
                         c_matrix
               in Inr (alloc h \<lparr>zm_buf = zm_complex, zm_is_complex = True,
                                 zm_n = n, zm_m = m, zm_alpha = zm_alpha self\<rparr>))
      else Inr (h, self_ref))"

text \<open>
  \<^verbatim>\<open>zmarray.rotinv\<close>. The assignment
  \<^verbatim>\<open>zm_complex[:, ~mask] = np.abs(zm_complex[:, ~mask])\<close> writes into the array that
  \<^verbatim>\<open>self.complex()\<close> returned; the boolean mask must be as long as the rows. The result is
  built from \<^verbatim>\<open>zm_complex.real\<close>, here a new array holding the real parts.
\<close>

definition rotinv :: "utils \<Rightarrow> heap \<Rightarrow> nat \<Rightarrow> error + heap \<times> nat" where
  "rotinv u h self_ref =
     ebind (complex_zm u h self_ref) (\<lambda>(h1, c_ref).
     let zm_complex = h1 ! c_ref;
         mask = map (\<lambda>em. em = 0) (zm_m zm_complex)
     in if \<not> list_all (\<lambda>row. length row = length mask) (zm_buf zm_complex)
        then Inl IndexError
        else
          let new_buf = map (\<lambda>row. map2 (\<lambda>x keep. if keep then x else of_real (cmod x)) row mask)
                            (zm_buf zm_complex);
              h2 = h1[c_ref := zm_complex\<lparr>zm_buf := new_buf\<rparr>];
              zm_rotinv = map (map (\<lambda>x. of_real (Re x))) new_buf
          in Inr (alloc h2 \<lparr>zm_buf = zm_rotinv, zm_is_complex = False,
                             zm_n = zm_n zm_complex, zm_m = zm_m zm_complex,
                             zm_alpha = zm_alpha (h ! self_ref)\<rparr>))"

text \<open>
  \<^verbatim>\<open>sklearn.preprocessing.normalize(X, axis=1, norm=norm)\<close> on a real array: the norm name
  must be \<^verbatim>\<open>l1\<close>, \<^verbatim>\<open>l2\<close> or \<^verbatim>\<open>max\<close>, the array must have a row and a column, each row is
  divided by its norm, and a row of norm zero is left as it is. It returns a new array.
\<close>

definition row_norm :: "string \<Rightarrow> complex list \<Rightarrow> real" where
  "row_norm nrm row =
     (if nrm = ''l1'' then sum_list (map cmod row)
      else if nrm = ''l2'' then sqrt (sum_list (map (\<lambda>x. (cmod x)\<^sup>2) row))
      else fold max (map cmod row) 0)"

definition sk_normalize :: "complex list list \<Rightarrow> string \<Rightarrow> error + complex list list" where
  "sk_normalize X nrm =
     (if nrm \<notin> set [''l1'', ''l2'', ''max''] then Inl ValueError
      else if X = [] \<or> hd X = [] then Inl ValueError
      else Inr (map (\<lambda>row. let s = row_norm nrm row; s = (if s = 0 then 1 else s)
                            in map (\<lambda>x. x / of_real s) row) X))"

text \<open>
  \<^verbatim>\<open>zmarray.normalize\<close>. The new array is built by \<^verbatim>\<open>zmarray(..., self.n, self.m)\<close>, without
  \<^verbatim>\<open>alpha\<close>, so its \<^verbatim>\<open>alpha\<close> is the default \<^verbatim>\<open>None\<close>.
\<close>

definition normalize_zm :: "heap \<Rightarrow> nat \<Rightarrow> string \<Rightarrow> error + heap \<times> nat" where
  "normalize_zm h self_ref nrm =
     (let self = h ! self_ref in
      if \<not> zm_is_complex self then
        ebind (sk_normalize (zm_buf self) nrm) (\<lambda>X.
        Inr (alloc h \<lparr>zm_buf = X, zm_is_complex = False,
                       zm_n = zm_n self, zm_m = zm_m self, zm_alpha = None\<rparr>))
      else Inr (h, self_ref))"

subsection \<open>Rotational symmetry map\<close>

definition construct_rot_weight_matrix :: "int \<Rightarrow> int list \<Rightarrow> error + real list" where
  "construct_rot_weight_matrix n_fold m =
     (if \<not> n_fold \<noteq> 1 then Inl AssertionError
      else
        let a = fold (\<lambda>k a. map2 (\<lambda>x y. x + y) a
                               (map (\<lambda>em. cos (of_int \<bar>em\<bar> * 2 * pi / of_int n_fold * of_int k)) m))
                     [1..n_fold - 1] (replicate (length m) 0)
        in Inr (map (\<lambda>x. x / of_int (n_fold - 1)) a))"

text \<open>
  An entry that numpy computes as \<^verbatim>\<open>nan\<close> (here only \<open>0 / 0\<close>, for a row of norm zero) is
  \<open>None\<close>; a sum with a \<^verbatim>\<open>nan\<close> term is \<^verbatim>\<open>nan\<close>.
\<close>

definition nan_sum :: "complex option list \<Rightarrow> complex option" where
  "nan_sum xs = fold (\<lambda>x acc. case (x, acc) of (Some a, Some b) \<Rightarrow> Some (b + a) | _ \<Rightarrow> None)
                     xs (Some 0)"

definition isqrt :: "nat \<Rightarrow> nat" where
  "isqrt k = length (filter (\<lambda>i. i * i \<le> k) [1..<Suc k])"

fun chunks :: "nat \<Rightarrow> nat \<Rightarrow> 'a list \<Rightarrow> 'a list list" where
  "chunks 0 w xs = []"
| "chunks (Suc r) w xs = take w xs # chunks r w (drop w xs)"

datatype score_map = Flat "complex option list" | Square "complex option list list"

text \<open>
  \<^verbatim>\<open>zmarray.maps\<close>. The weight matrix is built first; the work is done on a copy of the
  receiver. The boolean masks \<^verbatim>\<open>np.abs(self.m) == 0\<close> and \<^verbatim>\<open>== 1\<close> must be as long as the
  rows.
\<close>

definition maps :: "zmarray \<Rightarrow> int \<Rightarrow> bool \<Rightarrow> error + score_map" where
  "maps self n_fold reshape =
     ebind (construct_rot_weight_matrix n_fold (zm_m self)) (\<lambda>a.
     if \<not> list_all (\<lambda>row. length row = length (zm_m self)) (zm_buf self)
     then Inl IndexError
     else
       let t = map (\<lambda>row. map2 (\<lambda>x em. if \<bar>em\<bar> = 0 \<or> \<bar>em\<bar> = 1 then 0 else x) row (zm_m self))
                   (zm_buf self);
           ss = map (\<lambda>row.
                  let nn = sqrt (sum_list (map (\<lambda>x. (cmod x)\<^sup>2) row))
                  in nan_sum (map2 (\<lambda>x w. if nn = 0 then None
                                            else Some ((x / of_real nn)\<^sup>2 * of_real w)) row a)) t;
           size = isqrt (length ss)
       in if reshape \<and> size * size = length ss
          then Inr (Square (chunks size size ss))
          else Inr (Flat ss))"

subsection \<open>Arrays in canonical layout\<close>

text \<open>
  \<^verbatim>\<open>construct_rot_matrix\<close> addresses the columns of the array through \<^verbatim>\<open>nm2j\<close> (called with
  \<^verbatim>\<open>alpha = None\<close> by \<^verbatim>\<open>rot\<close>): row \<open>i\<close> is written at the columns \<open>nm2j(n[i], m[i])\<close> and
  \<open>nm2j(n[i], -m[i])\<close>. An array is in canonical layout when these are its own column \<open>i\<close>
  and, for \<open>m[i] \<noteq> 0\<close>, a column that holds the pair \<open>(n[i], -m[i])\<close>. This is a property
  of the index lists, not part of the code.
\<close>

definition canonical_layout :: "utils \<Rightarrow> int list \<Rightarrow> int list \<Rightarrow> bool" where
  "canonical_layout u n m =
     (length m = length n \<and>
      list_all (\<lambda>i. nm2j u (n ! i) (m ! i) None = int i \<and>
                    (m ! i = 0 \<or>
                     (let p = nm2j u (n ! i) (- (m ! i)) None
                      in 0 \<le> p \<and> p < int (length n) \<and>
                         n ! nat p = n ! i \<and> m ! nat p = - (m ! i))))
               [0..<length n])"

text \<open>Python's \<^verbatim>\<open>x % 360\<close> on floats.\<close>

definition mod360 :: "real \<Rightarrow> real" where
  "mod360 x = x - 360 * of_int \<lfloor>x / 360\<rfloor>"

text \<open>
  Row \<open>i\<close> of the matrix that \<^verbatim>\<open>construct_rot_matrix\<close> builds for an array in canonical
  layout, in closed form (\<open>th\<close> in radians): the lemmas below are stated with it.
\<close>

definition rot_row :: "utils \<Rightarrow> int list \<Rightarrow> int list \<Rightarrow> real \<Rightarrow> nat \<Rightarrow> real list" where
  "rot_row u n m th i =
     (if m ! i = 0 then (replicate (length n) 0)[i := 1]
      else (replicate (length n) 0)
             [i := cos (th * of_int \<bar>m ! i\<bar>),
              nat (nm2j u (n ! i) (- (m ! i)) None) :=
                (if m ! i < 0 then - 1 else 1) * sin (th * of_int \<bar>m ! i\<bar>)])"

section \<open>An instance of the index functions\<close>

text \<open>
  To evaluate the definitions above on concrete arrays the index functions need values.
  This instance is the OSA/ANSI single index of the Zernike polynomials,
  \<open>j = (n (n + 2) + m) / 2\<close>, which lists the pairs in the order
  \<open>(0,0), (1,-1), (1,1), (2,-2), (2,0), (2,2), \<dots>\<close>, with its inverse. It is used in
  examples only: every general statement below is about arbitrary index functions.
\<close>

definition osa_index :: utils where
  "osa_index =
     \<lparr>nm2j = (\<lambda>n m alpha. (n * (n + 2) + m) div 2),
      nm2j_complex = (\<lambda>n m alpha. (n * (n + 2) + m) div 2),
      j2nm = (\<lambda>j alpha.
         let n = int (length (filter (\<lambda>k. k * (k + 1) div 2 \<le> j) [1..j]))
         in (n, 2 * j - n * (n + 2)))\<rparr>"

section \<open>Properties of the coefficient generator\<close>

lemma ebind_simps:
  "ebind (Inl e) f = Inl e" "ebind (Inr x) f = f x"
  by (simp_all add: ebind_def)

lemma amax_Max:
  assumes "N \<noteq> []"
  shows "amax N = Inr (Max (set N))"
proof (cases N)
  case Nil
  with assms show ?thesis by simp
next
  case (Cons a list)
  show ?thesis using Max.set_eq_fold[of a list] by (simp add: Cons)
qed

lemma broadcast2_same:
  "length ys = length xs \<Longrightarrow>
   broadcast2 f xs ys = Inr (map (\<lambda>i. f (xs ! i) (ys ! i)) [0..<length xs])"
  by (auto simp: broadcast2_def broadcast_len_def bget_def)

lemma np_array_rect:
  "\<forall>r\<in>set l. length r = w \<Longrightarrow> np_array l = Inr l"
  by (cases l) (auto simp: np_array_def list_all_iff)

lemma zp_row_length:
  "0 \<le> n \<Longrightarrow> n \<le> n_max \<Longrightarrow> length (zp_row n_max n m) = nat (n_max + 1)"
  by (simp add: zp_row_def Let_def)

lemma zp_row_pad:
  "j < nat (n_max - n) \<Longrightarrow> zp_row n_max n m ! j = 0"
  by (simp add: zp_row_def Let_def nth_append)

lemma zp_row_nth:
  "j \<le> nat n \<Longrightarrow> 0 \<le> n \<Longrightarrow>
   zp_row n_max n m ! (nat (n_max - n) + j) =
     (if even j then (- 1) ^ (j div 2) * binom (n - int (j div 2)) (int (j div 2))
                      * binom (n - 2 * int (j div 2)) ((n - m) div 2 - int (j div 2))
      else 0)"
proof -
  assume j: "j \<le> nat n" and n: "0 \<le> n"
  have e: "(int j mod 2 = 0) = even j" by presburger
  have d: "int j div 2 = int (j div 2)" by (simp add: zdiv_int)
  have k: "nat (int (j div 2)) = j div 2" by simp
  from j n show ?thesis
    by (simp add: zp_row_def Let_def nth_append e d del: of_nat_div)
qed

lemma binom_nonzero: "binom a b \<noteq> 0 \<longleftrightarrow> 0 \<le> b \<and> b \<le> a"
  by (auto simp: binom_def)

lemma zp_row_nonzero_iff:
  assumes "j \<le> nat n" "0 \<le> m" "m \<le> n" "even (n - m)"
  shows "zp_row n_max n m ! (nat (n_max - n) + j) \<noteq> 0 \<longleftrightarrow>
           even j \<and> int (j div 2) \<le> (n - m) div 2"
proof -
  have n0: "0 \<le> n" using assms by simp
  have a: "int (j div 2) \<le> n - int (j div 2)" using assms(1) n0 by linarith
  have b: "(n - m) div 2 - int (j div 2) \<le> n - 2 * int (j div 2)" using assms by linarith
  show ?thesis
    using a b by (simp add: zp_row_nth[OF assms(1) n0] binom_nonzero)
qed

lemma map2_map_upt:
  "map2 h (map f [0..<n]) (map g [0..<n]) = map (\<lambda>i. h (f i) (g i)) [0..<n]"
  by (rule nth_equalityI) simp_all

lemma zp_norm_same:
  "length M = length N \<Longrightarrow>
   zp_norm N M = Inr (map (\<lambda>i. if M ! i = 0 then sqrt (of_int (N ! i + 1))
                                   else sqrt (of_int (2 * N ! i + 2))) [0..<length N])"
  by (simp add: zp_norm_def) (rule nth_equalityI, simp_all)

lemma zp_get_coeffs_odd:
  assumes "N \<noteq> []" "length M = length N" "i < length N" "odd (N ! i - \<bar>M ! i\<bar>)"
  shows "zp_get_coeffs N M nf = Inl AssertionError"
proof -
  have "(N ! i - \<bar>M ! i\<bar>) mod 2 \<noteq> 0"
    using assms(4) unfolding even_iff_mod_2_eq_zero .
  then have "(N ! i - map abs M ! i) mod 2 \<noteq> 0"
    using assms(2,3) by simp
  with assms(3)
  have "\<not> list_all id (map (\<lambda>i. (N ! i - map abs M ! i) mod 2 = 0) [0..<length N])"
    by (auto simp: list_all_iff)
  then show ?thesis
    using assms(1,2)
    by (simp add: zp_get_coeffs_def amax_Max ebind_simps broadcast2_same)
qed

lemma zp_get_coeffs_valid:
  assumes "N \<noteq> []" "length M = length N"
    and "\<forall>i<length N. \<bar>M ! i\<bar> \<le> N ! i \<and> even (N ! i - \<bar>M ! i\<bar>)"
  shows "zp_get_coeffs N M nf =
    Inr (map (\<lambda>i. map (\<lambda>x. x * (if nf then (if M ! i = 0 then sqrt (of_int (N ! i + 1))
                                   else sqrt (of_int (2 * N ! i + 2))) else 1))
                     (zp_row (Max (set N)) (N ! i) \<bar>M ! i\<bar>)) [0..<length N])"
proof -
  let ?nmax = "Max (set N)"
  let ?l = "map (\<lambda>(n, m). zp_row ?nmax n m) (zip N (map abs M))"
  have ev: "list_all id (map (\<lambda>i. (N ! i - map abs M ! i) mod 2 = 0) [0..<length N])"
    using assms by (auto simp: list_all_iff even_iff_mod_2_eq_zero)
  have l: "?l = map (\<lambda>i. zp_row ?nmax (N ! i) \<bar>M ! i\<bar>) [0..<length N]"
    using assms(2) by (auto intro!: nth_equalityI)
  have len: "\<forall>r\<in>set ?l. length r = nat (?nmax + 1)"
  proof
    fix r assume "r \<in> set ?l"
    then obtain i where i: "i < length N" and r: "r = zp_row ?nmax (N ! i) \<bar>M ! i\<bar>"
      unfolding l by auto
    have "0 \<le> N ! i" using assms(3) i by fastforce
    moreover have "N ! i \<le> ?nmax" using i by simp
    ultimately show "length r = nat (?nmax + 1)" unfolding r by (rule zp_row_length)
  qed
  have arr: "np_array ?l = Inr ?l" using len by (rule np_array_rect)
  note arr' = arr[unfolded l]
  have z: "zp_get_coeffs N M nf =
      ebind (np_array ?l) (\<lambda>c. if nf then ebind (zp_norm N M) (\<lambda>nrm. Inr (scale_rows c nrm))
                                 else Inr c)"
    using assms(1,2) ev
    by (simp add: zp_get_coeffs_def amax_Max ebind_simps broadcast2_same Let_def)
  show ?thesis
  proof (cases nf)
    case True
    then show ?thesis
      unfolding z l arr' ebind_simps zp_norm_same[OF assms(2)]
      by (simp add: scale_rows_def map2_map_upt)
  next
    case False
    then show ?thesis
      unfolding z l arr' ebind_simps by simp
  qed
qed

lemma gpzp_row_length:
  assumes "0 \<le> b" "b \<le> n" "n \<le> n_max"
  shows "length (gpzp_row alpha n_max n a b c) = nat (n_max + 1)"
  using assms by (simp add: gpzp_row_def)

lemma gpzp_norm_same:
  "length M = length N \<Longrightarrow> \<exists>v. gpzp_norm N M alpha = Inr v \<and> length v = length N"
  by (simp add: gpzp_norm_def Let_def broadcast2_same ebind_simps)

lemma np_array_map_upt:
  assumes "\<And>i. i < n \<Longrightarrow> length (f i) = w"
  shows "np_array (map f [0..<n]) = Inr (map f [0..<n])"
  by (rule np_array_rect[of _ w]) (use assms in auto)

lemma gpzp_get_coeffs_valid:
  assumes "N \<noteq> []" "length M = length N" "\<forall>i<length N. \<bar>M ! i\<bar> \<le> N ! i"
  shows "\<exists>C. gpzp_get_coeffs N M alpha nf = Inr C \<and> length C = length N"
proof -
  obtain v where v: "gpzp_norm N M alpha = Inr v" "length v = length N"
    using gpzp_norm_same[OF assms(2)] by blast
  have rows: "length (gpzp_row alpha (Max (set N)) (N ! i) a (N ! i - \<bar>M ! i\<bar>) c)
                = nat (Max (set N) + 1)" if "i < length N" for i a c
  proof (rule gpzp_row_length)
    show "0 \<le> N ! i - \<bar>M ! i\<bar>" using assms(3) that by fastforce
    show "N ! i - \<bar>M ! i\<bar> \<le> N ! i" by simp
    show "N ! i \<le> Max (set N)" using that by simp
  qed
  show ?thesis
    using assms(1,2)
    apply (simp add: gpzp_get_coeffs_def Let_def amax_Max ebind_simps broadcast2_same)
    apply (subst np_array_map_upt[where w = "nat (Max (set N) + 1)"])
     apply (simp add: rows)
    apply (simp add: ebind_simps v scale_rows_def)
    done
qed

text \<open>
  Claim C1, as the code has it. For index arrays of equal length, \<^verbatim>\<open>zp_get_coeffs\<close> stops
  with \<^verbatim>\<open>AssertionError\<close> as soon as one entry has \<open>n - |m|\<close> odd, before any coefficient is
  computed. \<^verbatim>\<open>gpzp_get_coeffs\<close> has no parity check: on every non-empty index list with
  \<open>|m| \<le> n\<close> it returns a coefficient matrix with one row per index pair, whatever the
  parity of \<open>n - |m|\<close> (the pseudo-Zernike family has a polynomial for every such pair).
\<close>

theorem coeffs_parity_check:
  assumes "length M = length N"
  shows "((\<exists>i<length N. odd (N ! i - \<bar>M ! i\<bar>)) \<longrightarrow>
            zp_get_coeffs N M nf = Inl AssertionError) \<and>
         (N \<noteq> [] \<and> (\<forall>i<length N. \<bar>M ! i\<bar> \<le> N ! i) \<longrightarrow>
            (\<exists>C. gpzp_get_coeffs N M alpha nf = Inr C \<and> length C = length N))"
proof (intro conjI impI)
  assume "\<exists>i<length N. odd (N ! i - \<bar>M ! i\<bar>)"
  then obtain i where i: "i < length N" "odd (N ! i - \<bar>M ! i\<bar>)" by blast
  then have "N \<noteq> []" by auto
  then show "zp_get_coeffs N M nf = Inl AssertionError"
    using assms i by (rule zp_get_coeffs_odd)
next
  assume "N \<noteq> [] \<and> (\<forall>i<length N. \<bar>M ! i\<bar> \<le> N ! i)"
  then show "\<exists>C. gpzp_get_coeffs N M alpha nf = Inr C \<and> length C = length N"
    using assms gpzp_get_coeffs_valid by blast
qed

theorem coeffs_parity_check_witness:
  "zp_get_coeffs [0, 1, 2] [0, 0, 2] True = Inl AssertionError \<and>
   (\<exists>C. gpzp_get_coeffs [0, 1, 2] [0, 0, 2] 0 True = Inr C \<and> length C = 3)"
proof -
  have odd1: "\<exists>i<length [0, 1, 2 :: int]. odd ([0, 1, 2 :: int] ! i - \<bar>[0, 0, 2 :: int] ! i\<bar>)"
    by (rule exI[of _ 1]) simp
  have le: "\<forall>i<length [0, 1, 2 :: int]. \<bar>[0, 0, 2 :: int] ! i\<bar> \<le> [0, 1, 2 :: int] ! i"
    by (simp add: nth_Cons split: nat.split)
  have len: "length [0, 0, 2 :: int] = length [0, 1, 2 :: int]" by simp
  note t = coeffs_parity_check[OF len, of True 0]
  from t odd1 have a: "zp_get_coeffs [0, 1, 2] [0, 0, 2] True = Inl AssertionError"
    by blast
  from t le obtain C where C: "gpzp_get_coeffs [0, 1, 2] [0, 0, 2] 0 True = Inr C"
    and "length C = length [0, 1, 2 :: int]"
    by blast
  then have "length C = 3" by simp
  with a C show ?thesis by blast
qed

text \<open>
  The pair \<open>n = 1\<close>, \<open>m = 0\<close> has \<open>n - |m|\<close> odd, and \<^verbatim>\<open>gpzp_get_coeffs\<close> returns the
  normalized pseudo-Zernike row \<open>3 r - 2\<close> for it.
\<close>

theorem gpzp_odd_counterexample:
  "gpzp_get_coeffs [1] [0] 0 True = Inr [[3 * sqrt 2, - (2 * sqrt 2)]]"
  by (simp add: gpzp_get_coeffs_def ebind_simps broadcast2_def broadcast_len_def bget_def
      np_array_def gpzp_row_def gpzp_norm_def factorial_def scale_rows_def upto.simps
      eval_nat_numeral)

text \<open>
  Claim C9. For a non-empty list of valid index pairs (\<open>|m| \<le> n\<close> and \<open>n - |m|\<close> even),
  \<^verbatim>\<open>zp_get_coeffs\<close> returns a matrix with one row per pair; every row has width
  \<open>n_max + 1\<close>; the row of degree \<open>n\<close> starts with \<open>n_max - n\<close> zeros followed by a
  non-zero entry; and among the remaining \<open>n + 1\<close> entries the one at offset \<open>j\<close> is
  non-zero exactly when \<open>j\<close> is even and \<open>j div 2 \<le> (n - |m|) div 2\<close>, so non-zero
  coefficients sit at even offsets only (powers of the parity of \<open>n\<close>).
\<close>

theorem zp_get_coeffs_layout:
  assumes "N \<noteq> []"
    and "list_all2 (\<lambda>n m. \<bar>m\<bar> \<le> n \<and> even (n - \<bar>m\<bar>)) N M"
  shows "\<exists>C. zp_get_coeffs N M nf = Inr C \<and> length C = length N \<and>
     (\<forall>i<length N.
        length (C ! i) = nat (Max (set N) + 1) \<and>
        (\<forall>j<nat (Max (set N) - N ! i). C ! i ! j = 0) \<and>
        C ! i ! nat (Max (set N) - N ! i) \<noteq> 0 \<and>
        (\<forall>j\<le>nat (N ! i).
           (C ! i ! (nat (Max (set N) - N ! i) + j) \<noteq> 0) =
           (even j \<and> int (j div 2) \<le> (N ! i - \<bar>M ! i\<bar>) div 2)))"
proof -
  let ?nmax = "Max (set N)"
  let ?f = "\<lambda>i. if nf then (if M ! i = 0 then sqrt (of_int (N ! i + 1))
                                   else sqrt (of_int (2 * N ! i + 2))) else 1"
  let ?C = "map (\<lambda>i. map (\<lambda>x. x * ?f i) (zp_row ?nmax (N ! i) \<bar>M ! i\<bar>)) [0..<length N]"
  have len: "length M = length N" using assms(2) by (simp add: list_all2_lengthD)
  have val: "\<forall>i<length N. \<bar>M ! i\<bar> \<le> N ! i \<and> even (N ! i - \<bar>M ! i\<bar>)"
    using assms(2) by (simp add: list_all2_conv_all_nth)
  have C: "zp_get_coeffs N M nf = Inr ?C"
    using assms(1) len val by (rule zp_get_coeffs_valid)
  have rows: "length (?C ! i) = nat (?nmax + 1) \<and>
        (\<forall>j<nat (?nmax - N ! i). ?C ! i ! j = 0) \<and>
        ?C ! i ! nat (?nmax - N ! i) \<noteq> 0 \<and>
        (\<forall>j\<le>nat (N ! i).
           (?C ! i ! (nat (?nmax - N ! i) + j) \<noteq> 0) =
           (even j \<and> int (j div 2) \<le> (N ! i - \<bar>M ! i\<bar>) div 2))"
    if i: "i < length N" for i
  proof -
    have m: "\<bar>M ! i\<bar> \<le> N ! i" "even (N ! i - \<bar>M ! i\<bar>)" using val i by auto
    have n0: "0 \<le> N ! i" using m(1) by linarith
    have nmax: "N ! i \<le> ?nmax" using i by simp
    define fi where "fi = ?f i"
    have f: "fi \<noteq> 0" using n0 by (auto simp: fi_def)
    have Ci: "?C ! i = map (\<lambda>x. x * fi) (zp_row ?nmax (N ! i) \<bar>M ! i\<bar>)"
      using i by (simp add: fi_def)
    have L: "length (zp_row ?nmax (N ! i) \<bar>M ! i\<bar>) = nat (?nmax + 1)"
      using n0 nmax by (rule zp_row_length)
    have nz: "(zp_row ?nmax (N ! i) \<bar>M ! i\<bar> ! (nat (?nmax - N ! i) + j) \<noteq> 0) =
           (even j \<and> int (j div 2) \<le> (N ! i - \<bar>M ! i\<bar>) div 2)"
      if "j \<le> nat (N ! i)" for j
      using that m by (intro zp_row_nonzero_iff) auto
    have in_range: "nat (?nmax - N ! i) + j < nat (?nmax + 1)" if "j \<le> nat (N ! i)" for j
      using that n0 nmax by linarith
    have p1: "length (?C ! i) = nat (?nmax + 1)" unfolding Ci using L by simp
    have p2: "\<forall>j<nat (?nmax - N ! i). ?C ! i ! j = 0"
      unfolding Ci using L n0 by (auto simp: zp_row_pad)
    have p4: "\<forall>j\<le>nat (N ! i).
           (?C ! i ! (nat (?nmax - N ! i) + j) \<noteq> 0) =
           (even j \<and> int (j div 2) \<le> (N ! i - \<bar>M ! i\<bar>) div 2)"
    proof (intro allI impI)
      fix j assume j: "j \<le> nat (N ! i)"
      show "(?C ! i ! (nat (?nmax - N ! i) + j) \<noteq> 0) =
           (even j \<and> int (j div 2) \<le> (N ! i - \<bar>M ! i\<bar>) div 2)"
        unfolding Ci using L in_range[OF j] nz[OF j] f by simp
    qed
    have p3: "?C ! i ! nat (?nmax - N ! i) \<noteq> 0"
      using p4[rule_format, of 0] m(1) by simp
    show ?thesis using p1 p2 p3 p4 by blast
  qed
  show ?thesis
    by (rule exI[of _ ?C]) (use C rows in simp)
qed

theorem zp_get_coeffs_layout_witness:
  "\<exists>C. zp_get_coeffs [0, 2, 2] [0, 0, 2] True = Inr C \<and> length C = 3 \<and>
       length (C ! 0) = 3 \<and> C ! 0 ! 0 = 0 \<and> C ! 0 ! 1 = 0 \<and> C ! 0 ! 2 \<noteq> 0 \<and>
       C ! 1 ! 0 \<noteq> 0 \<and> C ! 1 ! 1 = 0"
proof -
  have ne: "[0, 2, 2 :: int] \<noteq> []" by simp
  have v: "list_all2 (\<lambda>n m. \<bar>m\<bar> \<le> n \<and> even (n - \<bar>m\<bar>)) [0, 2, 2 :: int] [0, 0, 2 :: int]"
    by simp
  have mx: "Max (set [0, 2, 2 :: int]) = 2" by simp
  obtain C where C: "zp_get_coeffs [0, 2, 2] [0, 0, 2] True = Inr C"
    and l: "length C = length [0, 2, 2 :: int]"
    and r: "\<And>i. i < length [0, 2, 2 :: int] \<Longrightarrow>
        length (C ! i) = nat (2 + 1) \<and>
        (\<forall>j<nat (2 - [0, 2, 2 :: int] ! i). C ! i ! j = 0) \<and>
        C ! i ! nat (2 - [0, 2, 2 :: int] ! i) \<noteq> 0 \<and>
        (\<forall>j\<le>nat ([0, 2, 2 :: int] ! i).
           (C ! i ! (nat (2 - [0, 2, 2 :: int] ! i) + j) \<noteq> 0) =
           (even j \<and> int (j div 2) \<le> ([0, 2, 2 :: int] ! i - \<bar>[0, 0, 2 :: int] ! i\<bar>) div 2))"
    using zp_get_coeffs_layout[OF ne v, of True] unfolding mx by blast
  have r0: "length (C ! 0) = 3" "C ! 0 ! 0 = 0" "C ! 0 ! 1 = 0" "C ! 0 ! 2 \<noteq> 0"
    using r[of 0] by (simp_all add: eval_nat_numeral)
  have q: "(C ! 1 ! j \<noteq> 0) = (even j \<and> int (j div 2) \<le> 1)" if "j \<le> 2" for j
    using r[of 1] that by simp
  have r1: "C ! 1 ! 0 \<noteq> 0" "C ! 1 ! 1 = 0"
    using q[of 0] q[of 1] by simp_all
  show ?thesis using C l r0 r1 by simp
qed

section \<open>Properties of the azimuthal-state filter and of select\<close>

lemma nth_filter_upt:
  "length xs = length ys \<Longrightarrow>
   map (\<lambda>i. xs ! i) (filter (\<lambda>i. P (ys ! i)) [0..<length ys]) =
   map fst (filter (\<lambda>(x, y). P y) (zip xs ys))"
proof (induction xs ys rule: list_induct2)
  case Nil
  then show ?case by simp
next
  case (Cons x xs y ys)
  have u: "[0..<length (y # ys)] = 0 # map Suc [0..<length ys]"
    by (simp only: length_Cons upt_conv_Cons[OF zero_less_Suc] map_Suc_upt)
  show ?case
    unfolding u using Cons.IH by (simp add: filter_map o_def)
qed

lemma nth_filter_upt_self:
  "map (\<lambda>i. ys ! i) (filter (\<lambda>i. P (ys ! i)) [0..<length ys]) = filter P ys"
proof -
  have "map (\<lambda>i. ys ! i) (filter (\<lambda>i. P (ys ! i)) [0..<length ys]) =
        map fst (filter (\<lambda>(x, y). P y) (zip ys ys))"
    by (rule nth_filter_upt) simp
  also have "\<dots> = filter P ys"
    by (induction ys) simp_all
  finally show ?thesis .
qed

lemma get_m_states_None:
  "set (get_m_states m NoStates) = abs ` set m" "distinct (get_m_states m NoStates)"
  by (simp_all add: get_m_states_def)

lemma get_m_states_nonneg: "0 \<le> s \<Longrightarrow> get_m_states m (OneState s) = [s]"
  by (simp add: get_m_states_def)

lemma get_m_states_neg:
  assumes "s < 0"
  shows "set (get_m_states m (OneState s)) = abs ` set m - {0}"
    and "distinct (get_m_states m (OneState s))"
  using assms by (auto simp add: get_m_states_def)

lemma select_wf:
  assumes "length (zm_n z) = length (zm_m z)"
    and "list_all (\<lambda>row. length row = length (zm_m z)) (zm_buf z)"
  shows "select z st =
     Inr \<lparr>zm_buf = map (\<lambda>row. map fst (filter (\<lambda>(x, em). \<bar>em\<bar> \<in> set (get_m_states (zm_m z) st))
                                        (zip row (zm_m z)))) (zm_buf z),
          zm_is_complex = zm_is_complex z,
          zm_n = map fst (filter (\<lambda>(en, em). \<bar>em\<bar> \<in> set (get_m_states (zm_m z) st))
                            (zip (zm_n z) (zm_m z))),
          zm_m = filter (\<lambda>em. \<bar>em\<bar> \<in> set (get_m_states (zm_m z) st)) (zm_m z),
          zm_alpha = zm_alpha z\<rparr>"
proof -
  let ?S = "set (get_m_states (zm_m z) st)"
  let ?ind = "filter (\<lambda>i. \<bar>zm_m z ! i\<bar> \<in> ?S) [0..<length (zm_m z)]"
  have rows: "\<And>row. row \<in> set (zm_buf z) \<Longrightarrow> length row = length (zm_m z)"
    using assms(2) by (simp add: list_all_iff)
  have in_range: "\<And>i. i \<in> set ?ind \<Longrightarrow> i < length (zm_m z)" by simp
  have ok1: "\<not> list_ex (\<lambda>i. list_ex (\<lambda>row. length row \<le> i) (zm_buf z)) ?ind"
    using rows by (auto simp: list_ex_iff)
  have ok2: "\<not> list_ex (\<lambda>i. length (zm_n z) \<le> i) ?ind"
    using assms(1) by (auto simp: list_ex_iff)
  have b: "map (\<lambda>row. map (\<lambda>i. row ! i) ?ind) (zm_buf z) =
           map (\<lambda>row. map fst (filter (\<lambda>(x, em). \<bar>em\<bar> \<in> ?S) (zip row (zm_m z)))) (zm_buf z)"
  proof (rule map_cong[OF refl])
    fix row assume "row \<in> set (zm_buf z)"
    then have "length row = length (zm_m z)" by (rule rows)
    then show "map (\<lambda>i. row ! i) ?ind =
               map fst (filter (\<lambda>(x, em). \<bar>em\<bar> \<in> ?S) (zip row (zm_m z)))"
      by (rule nth_filter_upt)
  qed
  have n: "map (\<lambda>i. zm_n z ! i) ?ind = map fst (filter (\<lambda>(en, em). \<bar>em\<bar> \<in> ?S) (zip (zm_n z) (zm_m z)))"
    using assms(1) by (rule nth_filter_upt)
  have m: "map (\<lambda>i. zm_m z ! i) ?ind = filter (\<lambda>em. \<bar>em\<bar> \<in> ?S) (zm_m z)"
    by (rule nth_filter_upt_self)
  show ?thesis
    unfolding select_def Let_def using ok1 ok2 by (simp only: b n m if_False simp_thms)
qed

lemma ZPs_init_nm_filter:
  "ZPs_init_nm u n_max alpha st =
     (let nm = map (\<lambda>j. j2nm u j alpha) [0..nm2j u n_max n_max alpha];
          S = set (get_m_states (map snd nm) st)
      in (map fst (filter (\<lambda>(en, em). \<bar>em\<bar> \<in> S) nm),
          map snd (filter (\<lambda>(en, em). \<bar>em\<bar> \<in> S) nm)))"
proof -
  let ?nm = "map (\<lambda>j. j2nm u j alpha) [0..nm2j u n_max n_max alpha]"
  let ?S = "set (get_m_states (map snd ?nm) st)"
  let ?ind = "filter (\<lambda>i. \<bar>map snd ?nm ! i\<bar> \<in> ?S) [0..<length (map snd ?nm)]"
  have z: "zip (map fst ?nm) (map snd ?nm) = ?nm"
    by (rule zip_map_fst_snd)
  have n: "map (\<lambda>i. map fst ?nm ! i) ?ind = map fst (filter (\<lambda>(en, em). \<bar>em\<bar> \<in> ?S) ?nm)"
    using nth_filter_upt[of "map fst ?nm" "map snd ?nm" "\<lambda>em. \<bar>em\<bar> \<in> ?S"]
    unfolding z by simp
  have m: "map (\<lambda>i. map snd ?nm ! i) ?ind = map snd (filter (\<lambda>(en, em). \<bar>em\<bar> \<in> ?S) ?nm)"
    unfolding nth_filter_upt_self[of "map snd ?nm" "\<lambda>em. \<bar>em\<bar> \<in> ?S"]
    by (simp add: filter_map o_def case_prod_unfold)
  show ?thesis
    unfolding ZPs_init_nm_def Let_def n m ..
qed

text \<open>
  Claim C8. \<^verbatim>\<open>_get_m_states\<close> resolves \<^verbatim>\<open>None\<close> to the distinct values of \<open>|m|\<close>, a
  non-negative number to that number alone, and a negative number to the distinct non-zero
  values of \<open>|m|\<close>. The constructor keeps exactly the index pairs whose \<open>|m|\<close> is in the
  list resolved from the full index set, and \<^verbatim>\<open>select\<close>, on an array whose metadata and rows
  have one entry per column, keeps exactly the columns whose \<open>|m|\<close> is in the list resolved
  from the array's \<open>m\<close>, each with its own \<open>n\<close> and \<open>m\<close>, in the original order.
\<close>

theorem m_states_select:
  "(set (get_m_states m NoStates) = abs ` set m \<and> distinct (get_m_states m NoStates)) \<and>
   (0 \<le> s \<longrightarrow> get_m_states m (OneState s) = [s]) \<and>
   (t < 0 \<longrightarrow> set (get_m_states m (OneState t)) = abs ` set m - {0}
              \<and> distinct (get_m_states m (OneState t))) \<and>
   ZPs_init_nm u n_max alpha st' =
     (let nm = map (\<lambda>j. j2nm u j alpha) [0..nm2j u n_max n_max alpha];
          S = set (get_m_states (map snd nm) st')
      in (map fst (filter (\<lambda>(en, em). \<bar>em\<bar> \<in> S) nm),
          map snd (filter (\<lambda>(en, em). \<bar>em\<bar> \<in> S) nm))) \<and>
   (length (zm_n z) = length (zm_m z) \<and>
    list_all (\<lambda>row. length row = length (zm_m z)) (zm_buf z) \<longrightarrow>
    select z st =
     Inr \<lparr>zm_buf = map (\<lambda>row. map fst (filter (\<lambda>(x, em). \<bar>em\<bar> \<in> set (get_m_states (zm_m z) st))
                                        (zip row (zm_m z)))) (zm_buf z),
          zm_is_complex = zm_is_complex z,
          zm_n = map fst (filter (\<lambda>(en, em). \<bar>em\<bar> \<in> set (get_m_states (zm_m z) st))
                            (zip (zm_n z) (zm_m z))),
          zm_m = filter (\<lambda>em. \<bar>em\<bar> \<in> set (get_m_states (zm_m z) st)) (zm_m z),
          zm_alpha = zm_alpha z\<rparr>)"
  using get_m_states_None[of m] get_m_states_nonneg[of s m] get_m_states_neg[of t m]
    ZPs_init_nm_filter[of u n_max alpha st'] select_wf[of z st]
  by blast

theorem m_states_select_witness:
  "get_m_states [0, - 1, 1, - 2, 0, 2] (OneState 2) = [2] \<and>
   set (get_m_states [0, - 1, 1, - 2, 0, 2] (OneState (- 1))) = {1, 2} \<and>
   select \<lparr>zm_buf = [[10, 11, 12, 13, 14, 15]], zm_is_complex = False,
           zm_n = [0, 1, 1, 2, 2, 2], zm_m = [0, - 1, 1, - 2, 0, 2], zm_alpha = None\<rparr>
          (OneState (- 1)) =
     Inr \<lparr>zm_buf = [[11, 12, 13, 15]], zm_is_complex = False,
          zm_n = [1, 1, 2, 2], zm_m = [- 1, 1, - 2, 2], zm_alpha = None\<rparr>"
proof -
  let ?m = "[0, - 1, 1, - 2, 0, 2] :: int list"
  let ?z = "\<lparr>zm_buf = [[10, 11, 12, 13, 14, 15]], zm_is_complex = False,
           zm_n = [0, 1, 1, 2, 2, 2], zm_m = ?m, zm_alpha = None\<rparr>"
  note t = m_states_select[of ?m 2 "- 1" _ _ _ _ ?z "OneState (- 1)"]
  note B = t[THEN conjunct2, THEN conjunct1]
  note C = t[THEN conjunct2, THEN conjunct2, THEN conjunct1]
  note E = t[THEN conjunct2, THEN conjunct2, THEN conjunct2, THEN conjunct2]
  have a: "get_m_states ?m (OneState 2) = [2]" using B by simp
  have "set (get_m_states ?m (OneState (- 1))) = abs ` set ?m - {0}"
    using C by simp
  also have "\<dots> = {1, 2}" by auto
  finally have s: "set (get_m_states ?m (OneState (- 1))) = {1, 2}" .
  have wf: "length (zm_n ?z) = length (zm_m ?z) \<and>
    list_all (\<lambda>row. length row = length (zm_m ?z)) (zm_buf ?z)" by simp
  have c: "select ?z (OneState (- 1)) = Inr \<lparr>zm_buf = [[11, 12, 13, 15]], zm_is_complex = False,
          zm_n = [1, 1, 2, 2], zm_m = [- 1, 1, - 2, 2], zm_alpha = None\<rparr>"
    using E[rule_format, OF wf] by (simp add: s)
  from a s c show ?thesis by blast
qed

section \<open>Properties of complex, normalize and rotinv\<close>

text \<open>
  Claim C5. \<^verbatim>\<open>complex()\<close> on an array whose dtype is already complex returns the receiver
  itself and leaves the store as it is: buffer, \<open>n\<close>, \<open>m\<close> and \<open>alpha\<close> are unchanged.
\<close>

theorem complex_idempotent:
  assumes "r < length h" "zm_is_complex (h ! r)"
  shows "complex_zm u h r = Inr (h, r)"
  using assms by (simp add: complex_zm_def)

theorem complex_idempotent_witness:
  "complex_zm osa_index
     [\<lparr>zm_buf = [[2, \<i>]], zm_is_complex = True, zm_n = [0, 1], zm_m = [0, 1],
       zm_alpha = None\<rparr>] 0 =
   Inr ([\<lparr>zm_buf = [[2, \<i>]], zm_is_complex = True, zm_n = [0, 1], zm_m = [0, 1],
          zm_alpha = None\<rparr>], 0)"
  using complex_idempotent[of 0
      "[\<lparr>zm_buf = [[2, \<i>]], zm_is_complex = True, zm_n = [0, 1], zm_m = [0, 1],
         zm_alpha = None\<rparr>]" osa_index]
  by simp

text \<open>
  Claim C10. For a real array with at least one row and one column and a norm name that
  \<^verbatim>\<open>sklearn\<close> accepts, \<^verbatim>\<open>normalize\<close> returns a new array whose \<open>n\<close> and \<open>m\<close> are the
  receiver's and whose \<open>alpha\<close> is \<^verbatim>\<open>None\<close>, whatever the receiver's \<open>alpha\<close> was. For a
  complex array it returns the receiver itself, the store unchanged.
\<close>

theorem normalize_alpha:
  assumes "r < length h" "r' < length h'"
  shows "(\<not> zm_is_complex (h ! r) \<and> nrm \<in> set [''l1'', ''l2'', ''max''] \<and>
          zm_buf (h ! r) \<noteq> [] \<and> hd (zm_buf (h ! r)) \<noteq> [] \<longrightarrow>
          (\<exists>X. normalize_zm h r nrm =
                 Inr (h @ [\<lparr>zm_buf = X, zm_is_complex = False, zm_n = zm_n (h ! r),
                             zm_m = zm_m (h ! r), zm_alpha = None\<rparr>], length h))) \<and>
         (zm_is_complex (h' ! r') \<longrightarrow> normalize_zm h' r' nrm' = Inr (h', r'))"
  by (simp add: normalize_zm_def sk_normalize_def ebind_simps alloc_def Let_def)

theorem normalize_alpha_witness:
  "(\<exists>X. normalize_zm [\<lparr>zm_buf = [[3, 4]], zm_is_complex = False, zm_n = [1, 1],
                          zm_m = [- 1, 1], zm_alpha = Some 0\<rparr>] 0 ''l2'' =
        Inr ([\<lparr>zm_buf = [[3, 4]], zm_is_complex = False, zm_n = [1, 1],
               zm_m = [- 1, 1], zm_alpha = Some 0\<rparr>,
              \<lparr>zm_buf = X, zm_is_complex = False, zm_n = [1, 1],
               zm_m = [- 1, 1], zm_alpha = None\<rparr>], 1)) \<and>
   normalize_zm [\<lparr>zm_buf = [[\<i>]], zm_is_complex = True, zm_n = [1],
                  zm_m = [1], zm_alpha = Some 0\<rparr>] 0 ''l2'' =
     Inr ([\<lparr>zm_buf = [[\<i>]], zm_is_complex = True, zm_n = [1],
                  zm_m = [1], zm_alpha = Some 0\<rparr>], 0)"
  using normalize_alpha[of 0
      "[\<lparr>zm_buf = [[3, 4]], zm_is_complex = False, zm_n = [1, 1],
         zm_m = [- 1, 1], zm_alpha = Some 0\<rparr>]"
      0
      "[\<lparr>zm_buf = [[\<i>]], zm_is_complex = True, zm_n = [1],
                  zm_m = [1], zm_alpha = Some 0\<rparr>]" "''l2''" "''l2''"]
  by simp

text \<open>
  Claim C2 at a complex receiver. The store holds one complex array with the single column
  \<open>n = 1\<close>, \<open>m = 1\<close> and the entry \<open>-1\<close>. \<^verbatim>\<open>rotinv\<close> returns a new array at position \<open>1\<close>,
  and the receiver at position \<open>0\<close> now holds \<open>1\<close>: its buffer was overwritten with the
  moduli.
\<close>

theorem rotinv_overwrites_complex_receiver:
  "rotinv osa_index
     [\<lparr>zm_buf = [[- 1]], zm_is_complex = True, zm_n = [1], zm_m = [1], zm_alpha = None\<rparr>] 0 =
   Inr ([\<lparr>zm_buf = [[1]], zm_is_complex = True, zm_n = [1], zm_m = [1], zm_alpha = None\<rparr>,
         \<lparr>zm_buf = [[1]], zm_is_complex = False, zm_n = [1], zm_m = [1], zm_alpha = None\<rparr>],
        1)"
  by (simp add: rotinv_def complex_zm_def ebind_simps alloc_def Let_def)

section \<open>Properties of the rotational weight vector\<close>

lemma fold_add_columns:
  "length a0 = length m \<Longrightarrow>
   fold (\<lambda>k a. map2 (\<lambda>x y. x + y) a (map (g k) m)) ks a0 =
   map2 (\<lambda>x em. x + sum_list (map (\<lambda>k. g k em) ks)) a0 m"
proof (induction ks arbitrary: a0)
  case Nil
  then show ?case by (simp add: map2_map_map[symmetric] zip_same_conv_map map_idI
        del: map2_map_map)
      (rule nth_equalityI, simp_all)
next
  case (Cons k ks)
  have len: "length (map2 (\<lambda>x y. x + y) a0 (map (g k) m)) = length m"
    using Cons.prems by simp
  show ?case
    unfolding fold_Cons comp_apply Cons.IH[OF len]
    using Cons.prems by (intro nth_equalityI) (simp_all add: add.assoc)
qed

lemma rot_weight_sum:
  "n_fold \<noteq> 1 \<Longrightarrow>
   construct_rot_weight_matrix n_fold m =
     Inr (map (\<lambda>em. (\<Sum>k = 1..n_fold - 1. cos (of_int \<bar>em\<bar> * 2 * pi / of_int n_fold * of_int k))
                     / of_int (n_fold - 1)) m)"
proof -
  assume n: "n_fold \<noteq> 1"
  let ?g = "\<lambda>k em. cos (of_int \<bar>em\<bar> * 2 * pi / of_int n_fold * of_int k)"
  have s: "sum_list (map (\<lambda>k. ?g k em) [1..n_fold - 1]) = (\<Sum>k = 1..n_fold - 1. ?g k em)" for em
    by (simp flip: sum_set_upto_conv_sum_list_int)
  have r: "map2 (\<lambda>x em. x + F em) (replicate (length m) 0) m = map F m" for F :: "int \<Rightarrow> real"
    by (rule nth_equalityI) simp_all
  have "fold (\<lambda>k a. map2 (\<lambda>x y. x + y) a (map (?g k) m)) [1..n_fold - 1] (replicate (length m) 0)
        = map2 (\<lambda>x em. x + sum_list (map (\<lambda>k. ?g k em) [1..n_fold - 1])) (replicate (length m) 0) m"
    by (rule fold_add_columns) simp
  also have "\<dots> = map (\<lambda>em. sum_list (map (\<lambda>k. ?g k em) [1..n_fold - 1])) m"
    by (rule r)
  also have "\<dots> = map (\<lambda>em. \<Sum>k = 1..n_fold - 1. ?g k em) m"
    unfolding s ..
  finally show ?thesis
    using n by (simp add: construct_rot_weight_matrix_def Let_def)
qed

text \<open>
  Claim C7. \<^verbatim>\<open>maps(1)\<close> stops with \<^verbatim>\<open>AssertionError\<close> before anything else is computed,
  for every moment array. For \<open>n_fold \<ge> 2\<close> the weight of a column with azimuthal frequency
  \<open>m\<close> is the sum of \<open>cos (|m| 2 \<pi> k / n_fold)\<close> over \<open>k = 1, \<dots>, n_fold - 1\<close>, divided by
  \<open>n_fold - 1\<close>.
\<close>

theorem maps_weights:
  "maps z 1 reshape = Inl AssertionError \<and>
   (2 \<le> n_fold \<longrightarrow>
      construct_rot_weight_matrix n_fold m =
        Inr (map (\<lambda>em. (\<Sum>k = 1..n_fold - 1. cos (of_int \<bar>em\<bar> * 2 * pi * of_int k / of_int n_fold))
                        / of_int (n_fold - 1)) m))"
proof
  show "maps z 1 reshape = Inl AssertionError"
    by (simp add: maps_def construct_rot_weight_matrix_def ebind_simps)
next
  show "2 \<le> n_fold \<longrightarrow>
      construct_rot_weight_matrix n_fold m =
        Inr (map (\<lambda>em. (\<Sum>k = 1..n_fold - 1. cos (of_int \<bar>em\<bar> * 2 * pi * of_int k / of_int n_fold))
                        / of_int (n_fold - 1)) m)"
  proof
    assume "2 \<le> n_fold"
    then have "n_fold \<noteq> 1" by simp
    then show "construct_rot_weight_matrix n_fold m =
        Inr (map (\<lambda>em. (\<Sum>k = 1..n_fold - 1. cos (of_int \<bar>em\<bar> * 2 * pi * of_int k / of_int n_fold))
                        / of_int (n_fold - 1)) m)"
      by (simp add: rot_weight_sum mult.commute mult.left_commute)
  qed
qed

theorem maps_weights_witness:
  "maps \<lparr>zm_buf = [[5, 2, 3]], zm_is_complex = False, zm_n = [0, 1, 1],
          zm_m = [0, - 1, 1], zm_alpha = None\<rparr> 1 True = Inl AssertionError \<and>
   construct_rot_weight_matrix 2 [0, - 1, 2] = Inr [1, - 1, 1]"
proof -
  note t = maps_weights[of "\<lparr>zm_buf = [[5, 2, 3]], zm_is_complex = False, zm_n = [0, 1, 1],
          zm_m = [0, - 1, 1], zm_alpha = None\<rparr>" True 2 "[0, - 1, 2]"]
  have a: "maps \<lparr>zm_buf = [[5, 2, 3]], zm_is_complex = False, zm_n = [0, 1, 1],
          zm_m = [0, - 1, 1], zm_alpha = None\<rparr> 1 True = Inl AssertionError"
    using t by (rule conjunct1)
  have i: "{1..2 - 1} = {1 :: int}" by auto
  have c: "cos (2 * pi) = 1" "cos pi = - 1" by simp_all
  have "construct_rot_weight_matrix 2 [0, - 1, 2] = Inr [1, - 1, 1]"
    using t[THEN conjunct2] unfolding i by (simp add: c)
  with a show ?thesis by blast
qed

section \<open>Composition of rotations\<close>

lemma efold_append:
  "efold f (xs @ ys) s = ebind (efold f xs s) (efold f ys)"
  by (induction xs arbitrary: s) (simp_all add: ebind_def split: sum.splits)

lemma rdot_sum:
  "length r = length v \<Longrightarrow> rdot r v = (\<Sum>j<length v. of_real (r ! j) * v ! j)"
proof -
  assume l: "length r = length v"
  have "sum_list (map2 (\<lambda>a x. of_real a * x) r v) =
        (\<Sum>j = 0..<length (map2 (\<lambda>a x. complex_of_real a * x) r v).
            map2 (\<lambda>a x. of_real a * x) r v ! j)"
    by (rule sum_list_sum_nth)
  also have "\<dots> = (\<Sum>j = 0..<length v. of_real (r ! j) * v ! j)"
    using l by (intro sum.cong) simp_all
  finally show ?thesis by (simp add: rdot_def atLeast0LessThan)
qed

lemma rdot_one:
  assumes "length v = L" "i < L"
  shows "rdot ((replicate L 0)[i := c]) v = of_real c * v ! i"
proof -
  have "rdot ((replicate L 0)[i := c]) v =
        (\<Sum>j<length v. of_real ((replicate L 0)[i := c] ! j) * v ! j)"
    using assms by (simp add: rdot_sum)
  also have "\<dots> = (\<Sum>j<L. if j = i then of_real c * v ! j else 0)"
    using assms by (intro sum.cong) (auto simp: nth_list_update)
  also have "\<dots> = of_real c * v ! i"
    using assms(2) by (simp add: sum.delta')
  finally show ?thesis .
qed

lemma rdot_two:
  assumes "length v = L" "i < L" "p < L" "i \<noteq> p"
  shows "rdot ((replicate L 0)[i := c, p := d]) v = of_real c * v ! i + of_real d * v ! p"
proof -
  have "rdot ((replicate L 0)[i := c, p := d]) v =
        (\<Sum>j<length v. of_real ((replicate L 0)[i := c, p := d] ! j) * v ! j)"
    using assms by (simp add: rdot_sum)
  also have "\<dots> =
        (\<Sum>j<L. (if j = i then of_real c * v ! j else 0) + (if j = p then of_real d * v ! j else 0))"
    using assms by (intro sum.cong) (auto simp: nth_list_update)
  also have "\<dots> = of_real c * v ! i + of_real d * v ! p"
    using assms(2,3) by (simp add: sum.distrib sum.delta')
  finally show ?thesis .
qed

lemma efold_single: "efold f [x] s = f x s"
  by (simp split: sum.splits)

lemma set_entry_in_range:
  assumes "i < length M" "length (M ! i) = L" "0 \<le> j" "j < int L"
  shows "set_entry M i j v = Inr (M[i := (M ! i)[nat j := v]])"
  using assms by (simp add: set_entry_def py_index_def ebind_simps)

lemma canonical_layoutD:
  assumes "canonical_layout u n m" "i < length n"
  shows "length m = length n"
    and "nm2j u (n ! i) (m ! i) None = int i"
    and "m ! i \<noteq> 0 \<Longrightarrow> 0 \<le> nm2j u (n ! i) (- (m ! i)) None"
    and "m ! i \<noteq> 0 \<Longrightarrow> nm2j u (n ! i) (- (m ! i)) None < int (length n)"
    and "m ! i \<noteq> 0 \<Longrightarrow> n ! nat (nm2j u (n ! i) (- (m ! i)) None) = n ! i"
    and "m ! i \<noteq> 0 \<Longrightarrow> m ! nat (nm2j u (n ! i) (- (m ! i)) None) = - (m ! i)"
  using assms by (auto simp: canonical_layout_def list_all_iff Let_def)

lemma rot_matrix_step_canonical:
  assumes c: "canonical_layout u n m" and k: "k < length n"
    and M: "length M = length n" "M ! k = replicate (length n) 0"
  shows "rot_matrix_step u None th (k, n ! k, m ! k) M = Inr (M[k := rot_row u n m th k])"
proof -
  let ?L = "length n"
  let ?q = "nm2j u (n ! k) (- (m ! k)) None"
  note d = canonical_layoutD[OF c k]
  have kM: "k < length M" using k M(1) by simp
  have own: "set_entry M k (nm2j u (n ! k) (m ! k) None) v = Inr (M[k := (replicate ?L 0)[k := v]])"
    for v
    using set_entry_in_range[of k M ?L "int k" v] kM M(2) k d(2) by simp
  have partner: "set_entry (M[k := r]) k ?q v = Inr (M[k := r[nat ?q := v]])"
    if "length r = ?L" "m ! k \<noteq> 0" for r v
    using set_entry_in_range[of k "M[k := r]" ?L ?q v] kM that d(3,4) by simp
  show ?thesis
  proof (cases "m ! k = 0")
    case True
    then show ?thesis using own[of 1] by (simp add: rot_matrix_step_def rot_row_def)
  next
    case False
    show ?thesis
    proof (cases "m ! k < 0")
      case True
      have a: "\<bar>m ! k\<bar> = - (m ! k)" using True by simp
      show ?thesis
        unfolding rot_row_def a using True False
        by (simp add: rot_matrix_step_def Let_def own ebind_simps partner)
    next
      case pos: False
      have a: "\<bar>m ! k\<bar> = m ! k" using pos by simp
      show ?thesis
        unfolding rot_row_def a using pos False
        by (simp add: rot_matrix_step_def Let_def own ebind_simps partner)
    qed
  qed
qed

lemma construct_rot_matrix_canonical:
  assumes c: "canonical_layout u n m"
  shows "construct_rot_matrix u n m theta None =
           Inr (map (rot_row u n m (deg2rad theta)) [0..<length n])"
proof -
  let ?L = "length n"
  let ?th = "deg2rad theta"
  let ?h = "\<lambda>i. (i, n ! i, m ! i)"
  let ?Z = "replicate ?L (replicate ?L (0::real))"
  let ?P = "\<lambda>k. map (\<lambda>i. if i < k then rot_row u n m ?th i else replicate ?L 0) [0..<?L]"
  have len: "length m = ?L" using c by (simp add: canonical_layout_def)
  have z: "zip [0..<?L] (zip n m) = map ?h [0..<?L]"
    using len by (intro nth_equalityI) simp_all
  have ind: "k \<le> ?L \<Longrightarrow> efold (rot_matrix_step u None ?th) (map ?h [0..<k]) ?Z = Inr (?P k)"
    for k
  proof (induction k)
    case 0
    show ?case by (simp add: map_replicate_trivial)
  next
    case (Suc k)
    then have k: "k < ?L" and IH: "efold (rot_matrix_step u None ?th) (map ?h [0..<k]) ?Z = Inr (?P k)"
      by simp_all
    have step: "rot_matrix_step u None ?th (?h k) (?P k) = Inr ((?P k)[k := rot_row u n m ?th k])"
      using k by (intro rot_matrix_step_canonical[OF c]) simp_all
    have upd: "(?P k)[k := rot_row u n m ?th k] = ?P (Suc k)"
      using k by (intro nth_equalityI) (auto simp: nth_list_update less_Suc_eq)
    show ?case
      by (simp only: upt_Suc_append[OF le0] map_append list.map efold_append IH ebind_simps
          efold_single step upd)
  qed
  show ?thesis
    unfolding construct_rot_matrix_def z using ind[of ?L] by simp
qed

lemma rdot_rot_row:
  assumes c: "canonical_layout u n m" and i: "i < length n" and v: "length v = length n"
  shows "rdot (rot_row u n m th i) v =
     (if m ! i = 0 then v ! i
      else of_real (cos (th * of_int \<bar>m ! i\<bar>)) * v ! i +
           of_real ((if m ! i < 0 then - 1 else 1) * sin (th * of_int \<bar>m ! i\<bar>)) *
             v ! nat (nm2j u (n ! i) (- (m ! i)) None))"
proof (cases "m ! i = 0")
  case True
  then show ?thesis using rdot_one[OF v i, of 1] by (simp add: rot_row_def)
next
  case False
  let ?p = "nat (nm2j u (n ! i) (- (m ! i)) None)"
  note d = canonical_layoutD[OF c i]
  have p: "?p < length n" using d(3,4)[OF False] by simp
  have "m ! ?p \<noteq> m ! i" using d(6)[OF False] False by simp
  then have ne: "i \<noteq> ?p" by auto
  show ?thesis
    using False rdot_two[OF v i p ne] by (simp add: rot_row_def)
qed

lemma rot_canonical:
  assumes c: "canonical_layout u (zm_n z) (zm_m z)"
    and rows: "list_all (\<lambda>row. length row = length (zm_n z)) (zm_buf z)"
  shows "rot u z theta =
     Inr (z\<lparr>zm_buf := map (\<lambda>v. map (\<lambda>i. rdot (rot_row u (zm_n z) (zm_m z) (deg2rad theta) i) v)
                                  [0..<length (zm_n z)]) (zm_buf z)\<rparr>)"
  using rows
  by (simp add: rot_def construct_rot_matrix_canonical[OF c] ebind_simps o_def)

lemma cos_sin_shift:
  "cos (x - 2 * pi * of_int j) = cos x" "sin (x - 2 * pi * of_int j) = sin x"
  by (simp_all add: cos_diff sin_diff)

lemma rot_row_periodic:
  "rot_row u n m (th - 2 * pi * of_int k) i = rot_row u n m th i"
proof -
  have e: "(th - 2 * pi * of_int k) * of_int \<bar>m ! i\<bar> =
           th * of_int \<bar>m ! i\<bar> - 2 * pi * of_int (k * \<bar>m ! i\<bar>)"
    by (simp add: algebra_simps)
  have "cos ((th - 2 * pi * of_int k) * of_int \<bar>m ! i\<bar>) = cos (th * of_int \<bar>m ! i\<bar>)"
    unfolding e by (rule cos_sin_shift)
  moreover
  have "sin ((th - 2 * pi * of_int k) * of_int \<bar>m ! i\<bar>) = sin (th * of_int \<bar>m ! i\<bar>)"
    unfolding e by (rule cos_sin_shift)
  ultimately show ?thesis by (simp only: rot_row_def)
qed

lemma deg2rad_mod360: "deg2rad (mod360 x) = deg2rad x - 2 * pi * of_int \<lfloor>x / 360\<rfloor>"
  by (simp add: deg2rad_def mod360_def field_simps)

lemma rot_entry_compose:
  assumes c: "canonical_layout u n m" and i: "i < length n" and v: "length v = length n"
  shows "rdot (rot_row u n m tb i) (map (\<lambda>j. rdot (rot_row u n m ta j) v) [0..<length n]) =
         rdot (rot_row u n m (ta + tb) i) v"
proof -
  let ?w = "map (\<lambda>j. rdot (rot_row u n m ta j) v) [0..<length n]"
  have w: "length ?w = length n" by simp
  show ?thesis
  proof (cases "m ! i = 0")
    case True
    then show ?thesis
      using i by (simp add: rdot_rot_row[OF c i w] rdot_rot_row[OF c i v])
  next
    case False
    let ?p = "nat (nm2j u (n ! i) (- (m ! i)) None)"
    note d = canonical_layoutD[OF c i]
    have p: "?p < length n" using d(3,4)[OF False] by simp
    have np: "n ! ?p = n ! i" and mp: "m ! ?p = - (m ! i)" using d(5,6)[OF False] by simp_all
    have mp0: "m ! ?p \<noteq> 0" using mp False by simp
    have ret: "nat (nm2j u (n ! ?p) (- (m ! ?p)) None) = i"
      unfolding np mp using d(2) by simp
    define ca where "ca = cos (ta * of_int \<bar>m ! i\<bar>)"
    define sa where "sa = sin (ta * of_int \<bar>m ! i\<bar>)"
    define cb where "cb = cos (tb * of_int \<bar>m ! i\<bar>)"
    define sb where "sb = sin (tb * of_int \<bar>m ! i\<bar>)"
    define sg where "sg = (if m ! i < 0 then - 1 else 1 :: real)"
    have sg2: "sg * sg = 1" by (simp add: sg_def)
    have sgp: "(if m ! ?p < 0 then - 1 else 1) = - sg"
      unfolding mp sg_def using False by auto
    have wi: "?w ! i = of_real ca * v ! i + of_real (sg * sa) * v ! ?p"
      using i False by (simp add: rdot_rot_row[OF c i v] ca_def sa_def sg_def)
    have wp: "?w ! ?p = of_real ca * v ! ?p + of_real (- sg * sa) * v ! i"
      using p mp0
      by (simp add: rdot_rot_row[OF c p v] ret sgp) (simp add: mp ca_def sa_def)
    have lhs: "rdot (rot_row u n m tb i) ?w = of_real cb * ?w ! i + of_real (sg * sb) * ?w ! ?p"
      using False by (simp only: rdot_rot_row[OF c i w] cb_def sb_def sg_def if_False)
    have sum: "cos ((ta + tb) * of_int \<bar>m ! i\<bar>) = ca * cb - sa * sb"
      "sin ((ta + tb) * of_int \<bar>m ! i\<bar>) = sa * cb + ca * sb"
      by (simp_all add: distrib_right cos_add sin_add ca_def sa_def cb_def sb_def)
    have rhs: "rdot (rot_row u n m (ta + tb) i) v =
        of_real (ca * cb - sa * sb) * v ! i + of_real (sg * (sa * cb + ca * sb)) * v ! ?p"
      using False by (simp only: rdot_rot_row[OF c i v] sum sg_def if_False)
    have "of_real cb * (of_real ca * v ! i + of_real (sg * sa) * v ! ?p) +
          of_real (sg * sb) * (of_real ca * v ! ?p + of_real (- sg * sa) * v ! i) =
          of_real (ca * cb - (sg * sg) * (sa * sb)) * v ! i +
          of_real (sg * (sa * cb + ca * sb)) * v ! ?p"
      by (simp add: algebra_simps)
    then show ?thesis
      unfolding lhs rhs wi wp sg2 by simp
  qed
qed

lemma deg2rad_add: "deg2rad (a + b) = deg2rad a + deg2rad b"
  by (simp add: deg2rad_def field_simps)

text \<open>
  Claim C6, for arrays in canonical layout. When every row of the buffer has one entry per
  column and the index lists are in canonical layout for the index \<^verbatim>\<open>nm2j(., ., None)\<close> that
  \<^verbatim>\<open>rot\<close> uses, \<^verbatim>\<open>rot(a)\<close> returns an array, \<^verbatim>\<open>rot(b)\<close> of that array returns an array, and
  it is the array that \<^verbatim>\<open>rot((a + b) % 360)\<close> returns (exactly, with real arithmetic).
\<close>

theorem rot_composition:
  assumes c: "canonical_layout u (zm_n z) (zm_m z)"
    and rows: "list_all (\<lambda>row. length row = length (zm_n z)) (zm_buf z)"
  shows "\<exists>z1 z2. rot u z a = Inr z1 \<and> rot u z1 b = Inr z2 \<and>
                 rot u z (mod360 (a + b)) = Inr z2"
proof -
  let ?n = "zm_n z" and ?m = "zm_m z"
  let ?L = "length ?n"
  let ?E = "\<lambda>th v. map (\<lambda>i. rdot (rot_row u ?n ?m th i) v) [0..<?L]"
  let ?z1 = "z\<lparr>zm_buf := map (?E (deg2rad a)) (zm_buf z)\<rparr>"
  let ?z2 = "?z1\<lparr>zm_buf := map (?E (deg2rad b)) (zm_buf ?z1)\<rparr>"
  have r1: "rot u z a = Inr ?z1" using c rows by (rule rot_canonical)
  have c1: "canonical_layout u (zm_n ?z1) (zm_m ?z1)" using c by simp
  have rows1: "list_all (\<lambda>row. length row = length (zm_n ?z1)) (zm_buf ?z1)"
    by (simp add: list_all_iff)
  have r2: "rot u ?z1 b = Inr ?z2"
    using rot_canonical[OF c1 rows1, of b] by simp
  have len: "length v = ?L" if "v \<in> set (zm_buf z)" for v
    using rows that by (simp add: list_all_iff)
  have entry: "rdot (rot_row u ?n ?m (deg2rad b) i) (?E (deg2rad a) v) =
               rdot (rot_row u ?n ?m (deg2rad (mod360 (a + b))) i) v"
    if "v \<in> set (zm_buf z)" "i < ?L" for v i
    unfolding deg2rad_mod360 rot_row_periodic deg2rad_add
    using c that(2) len[OF that(1)] by (rule rot_entry_compose)
  have buf: "map (?E (deg2rad b)) (map (?E (deg2rad a)) (zm_buf z)) =
             map (?E (deg2rad (mod360 (a + b)))) (zm_buf z)"
    unfolding map_map comp_def
  proof (rule map_cong[OF refl])
    fix v assume v: "v \<in> set (zm_buf z)"
    show "?E (deg2rad b) (?E (deg2rad a) v) = ?E (deg2rad (mod360 (a + b))) v"
      by (rule map_cong[OF refl]) (simp add: entry[OF v])
  qed
  have e: "?z2 = z\<lparr>zm_buf := map (?E (deg2rad (mod360 (a + b)))) (zm_buf z)\<rparr>"
    by (simp add: buf del: map_map)
  have r3: "rot u z (mod360 (a + b)) = Inr ?z2"
    unfolding e using c rows by (rule rot_canonical)
  from r1 r2 r3 show ?thesis by blast
qed

theorem rot_composition_witness:
  "\<exists>z1 z2.
     rot osa_index \<lparr>zm_buf = [[5, 2, 3]], zm_is_complex = False, zm_n = [0, 1, 1],
                      zm_m = [0, - 1, 1], zm_alpha = None\<rparr> 90 = Inr z1 \<and>
     rot osa_index z1 90 = Inr z2 \<and>
     rot osa_index \<lparr>zm_buf = [[5, 2, 3]], zm_is_complex = False, zm_n = [0, 1, 1],
                      zm_m = [0, - 1, 1], zm_alpha = None\<rparr> (mod360 (90 + 90)) = Inr z2"
proof -
  let ?z = "\<lparr>zm_buf = [[5, 2, 3]], zm_is_complex = False, zm_n = [0, 1, 1],
             zm_m = [0, - 1, 1], zm_alpha = None\<rparr>"
  have u: "[0..<length [0, 1, 1 :: int]] = [0, 1, 2]"
    by (simp add: upt_rec)
  have c: "canonical_layout osa_index (zm_n ?z) (zm_m ?z)"
    by (simp add: canonical_layout_def u osa_index_def)
  have rows: "list_all (\<lambda>row. length row = length (zm_n ?z)) (zm_buf ?z)"
    by simp
  show ?thesis using rot_composition[OF c rows, of 90 90] .
qed

text \<open>
  The array that \<^verbatim>\<open>select(1)\<close> (or an extractor built with \<^verbatim>\<open>states = 1\<close>) leaves for
  \<open>n_max = 1\<close> has the columns \<open>(1, -1)\<close> and \<open>(1, 1)\<close>, whose indices are \<open>1\<close> and \<open>2\<close>:
  the rotation matrix is \<open>2 \<times> 2\<close> and the write at column \<open>2\<close> raises \<^verbatim>\<open>IndexError\<close>.
\<close>

theorem rot_selected_counterexample:
  "rot osa_index \<lparr>zm_buf = [[2, 3]], zm_is_complex = False, zm_n = [1, 1],
                    zm_m = [- 1, 1], zm_alpha = None\<rparr> 90 = Inl IndexError"
  by (simp add: rot_def construct_rot_matrix_def rot_matrix_step_def osa_index_def ebind_simps
      set_entry_def py_index_def Let_def upt_rec)

end
